theory Spec2Isabelle
  imports Main "HOL-Library.Char_ord" "HOL-Library.List_Lexorder" "HOL-Library.Product_Lexorder"
    "HOL-Library.Multiset"
begin

section \<open>The view-state store: canvas, history and layers\<close>

text \<open>
  The store of the editor (the \<^verbatim>\<open>useStore\<close> object) holds a reference to the
  graphics canvas, the undo/redo history (serialized snapshots) and the layer list
  derived from the canvas objects. The graphics library itself is not part of the
  repository: what the store calls on it is taken as a parameter (the record
  \<open>fabric_lib\<close> below), and a canvas is the list of its objects with the
  properties the store reads and writes.
\<close>

subsection \<open>Configuration\<close>

definition MAX_HISTORY :: nat where
  "MAX_HISTORY = 50"

subsection \<open>Canvas objects and layers\<close>

text \<open>
  The fields are those of the source with a prefix: \<open>o_id\<close> is the custom
  \<^verbatim>\<open>id\<close> property of a canvas object (absent until one is assigned), \<open>o_text\<close>
  the text of a text object, \<open>l_id\<close> ... \<open>l_visible\<close> the fields of
  \<^verbatim>\<open>LayerData\<close>.
\<close>

record fabric_object =
  o_id :: "string option"
  o_type :: string
  o_text :: "string option"
  o_selectable :: bool
  o_evented :: bool
  o_visible :: bool

record fabric_canvas =
  objects :: "fabric_object list"

record LayerData =
  l_id :: "string option"
  l_name :: string
  l_type :: string
  l_thumbnail :: string
  l_locked :: bool
  l_visible :: bool

datatype js_error = Error string | SyntaxError | TypeError

text \<open>
  The calls into the graphics library and into \<^verbatim>\<open>JSON\<close>:
  \<open>toJSON\<close> is \<^verbatim>\<open>JSON.stringify(canvas.toJSON())\<close>, \<open>JSON_parse\<close> is
  \<^verbatim>\<open>JSON.parse\<close> on a string (\<open>None\<close> when it throws), \<open>enlivenObjects\<close>
  builds the objects of a parsed snapshot, \<open>toDataURL\<close> renders the thumbnail of one
  object and \<open>canvas_toDataURL\<close> the whole canvas.
\<close>

record 'j fabric_lib =
  toJSON :: "fabric_canvas \<Rightarrow> string"
  JSON_parse :: "string \<Rightarrow> 'j option"
  enlivenObjects :: "'j \<Rightarrow> fabric_object list"
  toDataURL :: "fabric_object \<Rightarrow> string"
  canvas_toDataURL :: "fabric_canvas \<Rightarrow> string"

text \<open>
  The fields of the store that the operations below read or write. The tool, colour,
  brush and font settings of the store are plain values with a setter each and are
  left out.
\<close>

record AppState =
  canvas :: "fabric_canvas option"
  history :: "string list"
  historyIndex :: int
  selectedStyle :: string
  isLoading :: bool
  loadingMessage :: string
  layers :: "LayerData list"

definition initial_state :: AppState where
  "initial_state =
     \<lparr>canvas = None, history = [], historyIndex = - 1, selectedStyle = ''Traditional'',
      isLoading = False, loadingMessage = ''AI is thinking...'', layers = []\<rparr>"

subsection \<open>JavaScript arrays and strings\<close>

text \<open>\<^verbatim>\<open>xs[i]\<close>: \<^verbatim>\<open>undefined\<close> (here \<open>None\<close>) outside the array.\<close>

definition js_index :: "'a list \<Rightarrow> int \<Rightarrow> 'a option" where
  "js_index xs i = (if 0 \<le> i \<and> i < int (length xs) then Some (xs ! nat i) else None)"

text \<open>\<^verbatim>\<open>xs.slice(0, e)\<close>: a negative end counts from the end of the array.\<close>

definition js_slice0 :: "'a list \<Rightarrow> int \<Rightarrow> 'a list" where
  "js_slice0 xs e =
     (let n = int (length xs);
          k = (if e < 0 then max (n + e) 0 else min e n)
      in take (nat k) xs)"

text \<open>\<^verbatim>\<open>c.toUpperCase()\<close> on one character, for the ASCII letters.\<close>

definition toUpperCase_char :: "char \<Rightarrow> char" where
  "toUpperCase_char c =
     (if CHR ''a'' \<le> c \<and> c \<le> CHR ''z'' then char_of (of_char c - (32::nat)) else c)"

text \<open>A string is truthy when it is not empty; \<^verbatim>\<open>undefined\<close> is falsy.\<close>

definition truthy :: "string option \<Rightarrow> bool" where
  "truthy s = (case s of None \<Rightarrow> False | Some t \<Rightarrow> t \<noteq> [])"

subsection \<open>Deriving the layer list\<close>

text \<open>
  \<open>getObjectName\<close> as in the source, with \<^verbatim>\<open>obj.isType('i-text')\<close> read as a
  test of the type name. \<open>layerOf\<close> is the record that \<^verbatim>\<open>updateLayers\<close> builds
  for one object, \<open>deriveLayers\<close> its \<^verbatim>\<open>map\<close> and \<^verbatim>\<open>filter(layer => layer.id)\<close>.
\<close>

definition getObjectName :: "fabric_object \<Rightarrow> string" where
  "getObjectName obj =
     (if o_type obj = ''i-text'' \<and> truthy (o_text obj) then
        (let t = take 20 (the (o_text obj)) in if t = [] then ''Text'' else t)
      else if o_type obj \<noteq> [] then
        toUpperCase_char (hd (o_type obj)) # tl (o_type obj)
      else ''Object'')"

definition layerOf :: "'j fabric_lib \<Rightarrow> fabric_object \<Rightarrow> LayerData" where
  "layerOf L obj =
     \<lparr>l_id = o_id obj, l_name = getObjectName obj, l_type = o_type obj,
      l_thumbnail = toDataURL L obj, l_locked = (\<not> o_selectable obj),
      l_visible = (o_visible obj \<or> False)\<rparr>"

definition deriveLayers :: "'j fabric_lib \<Rightarrow> fabric_object list \<Rightarrow> LayerData list" where
  "deriveLayers L objs = filter (\<lambda>layer. truthy (l_id layer)) (map (layerOf L) objs)"

definition updateLayers :: "'j fabric_lib \<Rightarrow> AppState \<Rightarrow> AppState" where
  "updateLayers L st =
     (case canvas st of
        None \<Rightarrow> st
      | Some c \<Rightarrow> st\<lparr>layers := deriveLayers L (objects c)\<rparr>)"

subsection \<open>History operations\<close>

definition setCanvas :: "fabric_canvas \<Rightarrow> AppState \<Rightarrow> AppState" where
  "setCanvas c st = st\<lparr>canvas := Some c\<rparr>"

definition addToHistory :: "'j fabric_lib \<Rightarrow> AppState \<Rightarrow> AppState" where
  "addToHistory L st =
     (case canvas st of
        None \<Rightarrow> st
      | Some c \<Rightarrow>
          (let state = toJSON L c in
           if js_index (history st) (historyIndex st) = Some state then st
           else
             (let pushed = js_slice0 (history st) (historyIndex st + 1) @ [state];
                  newHistory = (if length pushed > MAX_HISTORY then tl pushed else pushed)
              in st\<lparr>history := newHistory, historyIndex := int (length newHistory) - 1\<rparr>)))"

subsection \<open>Identifiers\<close>

text \<open>
  \<^verbatim>\<open>Date.now()\<close> is an integer (milliseconds); as a string it is written in
  decimal. The clock reading is an argument of every function that reads the clock.
\<close>

definition digit_char :: "nat \<Rightarrow> char" where
  "digit_char d = char_of (48 + d)"

fun dec_digits :: "nat \<Rightarrow> string" where
  "dec_digits n = (if n < 10 then [digit_char n] else dec_digits (n div 10) @ [digit_char (n mod 10)])"

declare dec_digits.simps [simp del]

definition Number_toString :: "int \<Rightarrow> string" where
  "Number_toString i = (if i < 0 then CHR ''-'' # dec_digits (nat (- i)) else dec_digits (nat i))"

text \<open>The id of a canvas object: \<^verbatim>\<open>`fabric_${Date.now()}`\<close>.\<close>

definition fabric_id :: "int \<Rightarrow> string" where
  "fabric_id now = ''fabric_'' @ Number_toString now"

text \<open>
  The \<^verbatim>\<open>object:added\<close> handler:
  \<^verbatim>\<open>target.id = target.id || `fabric_${Date.now()}`\<close>.
\<close>

definition assign_id :: "int \<Rightarrow> fabric_object \<Rightarrow> fabric_object" where
  "assign_id now target =
     target\<lparr>o_id := (if truthy (o_id target) then o_id target else Some (fabric_id now))\<rparr>"

subsection \<open>The canvas handlers\<close>

text \<open>
  The canvas component registers handlers on the canvas before it hands the canvas to
  the store, so they are in place whenever the store has a canvas.
  \<^verbatim>\<open>handleModified\<close> (for \<^verbatim>\<open>object:removed\<close>, \<^verbatim>\<open>object:modified\<close> and
  \<^verbatim>\<open>path:created\<close>) calls \<^verbatim>\<open>addToHistory\<close> and then \<^verbatim>\<open>updateLayers\<close>;
  the handler of \<^verbatim>\<open>object:added\<close> first gives its target an id when it has none
  (\<open>k\<close> is the position of the target on the canvas, \<open>now\<close> the clock reading).
\<close>

definition handleModified :: "'j fabric_lib \<Rightarrow> AppState \<Rightarrow> AppState" where
  "handleModified L st = updateLayers L (addToHistory L st)"

definition object_added :: "'j fabric_lib \<Rightarrow> int \<Rightarrow> nat \<Rightarrow> AppState \<Rightarrow> AppState" where
  "object_added L now k st =
     (case canvas st of
        None \<Rightarrow> st
      | Some c \<Rightarrow>
          handleModified L
            (st\<lparr>canvas := Some (c\<lparr>objects := (objects c)[k := assign_id now (objects c ! k)]\<rparr>)\<rparr>))"

subsection \<open>Loading a snapshot\<close>

text \<open>
  \<^verbatim>\<open>canvas.loadFromJSON(json, reviver)\<close> of the graphics library (version 6, the
  one the source is written against: \<^verbatim>\<open>Image.fromURL\<close> returns a promise and
  \<^verbatim>\<open>toJSON\<close> takes no argument) builds the objects of the snapshot, calls the
  reviver once for each of them, and only then clears the canvas and adds the objects.
  Clearing removes the objects one at a time and announces each removal
  (\<^verbatim>\<open>object:removed\<close>); adding puts all objects on the canvas and then announces
  each (\<^verbatim>\<open>object:added\<close>). \<open>clear_objects\<close> and \<open>loadFromJSON\<close> are these two
  steps with the handlers above; \<open>clock k\<close> is the clock reading when the \<open>k\<close>-th
  object is announced.
\<close>

primrec clear_objects ::
  "'j fabric_lib \<Rightarrow> fabric_canvas \<Rightarrow> fabric_object list \<Rightarrow> AppState \<Rightarrow> AppState" where
  "clear_objects L c [] st = st"
| "clear_objects L c (ob # rest) st =
     clear_objects L c rest (handleModified L (st\<lparr>canvas := Some (c\<lparr>objects := rest\<rparr>)\<rparr>))"

definition loadFromJSON ::
  "'j fabric_lib \<Rightarrow> (nat \<Rightarrow> int) \<Rightarrow> fabric_object list \<Rightarrow> AppState \<Rightarrow> AppState" where
  "loadFromJSON L clock enlived st =
     (case canvas st of
        None \<Rightarrow> st
      | Some c \<Rightarrow>
          (let cleared = clear_objects L c (objects c) st;
               added = cleared\<lparr>canvas := Some (c\<lparr>objects := enlived\<rparr>)\<rparr>
           in foldl (\<lambda>s k. object_added L (clock k) k s) added [0..<length enlived]))"

subsection \<open>Undo and redo\<close>

text \<open>
  \<open>undo\<close> and \<open>redo\<close> are asynchronous: the result is the state of the promise
  they return together with the store once everything the call set off has run.
  \<^verbatim>\<open>JSON.parse\<close> on the snapshot (on \<^verbatim>\<open>undefined\<close> when the index is outside
  the history) throws before anything is written, and the call is rejected. Otherwise
  the source passes its callback as the second argument of \<^verbatim>\<open>loadFromJSON\<close>,
  where the library expects the reviver, and waits for a promise that only this
  callback resolves:
  \<^item> when the snapshot has no object the callback never runs, the promise stays
    pending, and neither \<^verbatim>\<open>updateLayers\<close> nor the write of
    \<^verbatim>\<open>historyIndex\<close> after the \<^verbatim>\<open>await\<close> happens; the load itself still
    takes place;
  \<^item> when the snapshot has an object the callback runs while the objects are built,
    so the code after the \<^verbatim>\<open>await\<close> (layers from the canvas as it still is, then
    the index) runs before the canvas is cleared and filled.
\<close>

datatype promise = Fulfilled | Rejected js_error | Pending

definition undo :: "'j fabric_lib \<Rightarrow> (nat \<Rightarrow> int) \<Rightarrow> AppState \<Rightarrow> promise \<times> AppState" where
  "undo L clock st =
     (case canvas st of
        None \<Rightarrow> (Fulfilled, st)
      | Some c \<Rightarrow>
          if historyIndex st > 0 then
            (let newIndex = historyIndex st - 1 in
             case js_index (history st) newIndex of
               None \<Rightarrow> (Rejected SyntaxError, st)
             | Some s \<Rightarrow>
                 (case JSON_parse L s of
                    None \<Rightarrow> (Rejected SyntaxError, st)
                  | Some j \<Rightarrow>
                      (let enlived = enlivenObjects L j in
                       if enlived = [] then (Pending, loadFromJSON L clock enlived st)
                       else
                         (Fulfilled,
                          loadFromJSON L clock enlived
                            ((updateLayers L st)\<lparr>historyIndex := newIndex\<rparr>)))))
          else (Fulfilled, st))"

definition redo :: "'j fabric_lib \<Rightarrow> (nat \<Rightarrow> int) \<Rightarrow> AppState \<Rightarrow> promise \<times> AppState" where
  "redo L clock st =
     (case canvas st of
        None \<Rightarrow> (Fulfilled, st)
      | Some c \<Rightarrow>
          if historyIndex st < int (length (history st)) - 1 then
            (let newIndex = historyIndex st + 1 in
             case js_index (history st) newIndex of
               None \<Rightarrow> (Rejected SyntaxError, st)
             | Some s \<Rightarrow>
                 (case JSON_parse L s of
                    None \<Rightarrow> (Rejected SyntaxError, st)
                  | Some j \<Rightarrow>
                      (let enlived = enlivenObjects L j in
                       if enlived = [] then (Pending, loadFromJSON L clock enlived st)
                       else
                         (Fulfilled,
                          loadFromJSON L clock enlived
                            ((updateLayers L st)\<lparr>historyIndex := newIndex\<rparr>)))))
          else (Fulfilled, st))"

definition clearHistory :: "AppState \<Rightarrow> AppState" where
  "clearHistory st = st\<lparr>history := [], historyIndex := - 1\<rparr>"


text \<open>
  A run of the store. \<open>CanvasIs c\<close> stands for everything that changes the canvas
  between two store calls (\<^verbatim>\<open>setCanvas\<close>, drawing, adding or removing objects):
  afterwards the canvas reads \<open>c\<close>. \<open>Undo\<close> and \<open>Redo\<close> carry the clock of the
  call.
\<close>

datatype event =
  CanvasIs fabric_canvas | AddToHistory | Undo "nat \<Rightarrow> int" | Redo "nat \<Rightarrow> int" | ClearHistory

fun step :: "'j fabric_lib \<Rightarrow> AppState \<Rightarrow> event \<Rightarrow> AppState" where
  "step L st (CanvasIs c) = setCanvas c st"
| "step L st AddToHistory = addToHistory L st"
| "step L st (Undo clock) = snd (undo L clock st)"
| "step L st (Redo clock) = snd (redo L clock st)"
| "step L st ClearHistory = clearHistory st"

definition run :: "'j fabric_lib \<Rightarrow> event list \<Rightarrow> AppState \<Rightarrow> AppState" where
  "run L evs st = foldl (step L) st evs"

text \<open>
  The history invariant of the store: the index points into the history, and it is
  \<open>- 1\<close> exactly when the history is empty.
\<close>

definition history_inv :: "AppState \<Rightarrow> bool" where
  "history_inv st =
     (- 1 \<le> historyIndex st \<and> historyIndex st \<le> int (length (history st)) - 1 \<and>
      ((historyIndex st = - 1) = (history st = [])))"

subsection \<open>Layer flags\<close>

text \<open>
  \<^verbatim>\<open>canvas.getObjects().find(o => o.id === id)\<close> yields the first object that
  carries the id; \<^verbatim>\<open>obj.set(...)\<close> then changes that object in place, which is
  an update of the object list at the position found.
\<close>

primrec findIndex :: "('a \<Rightarrow> bool) \<Rightarrow> 'a list \<Rightarrow> nat option" where
  "findIndex P [] = None"
| "findIndex P (x # xs) = (if P x then Some 0 else map_option Suc (findIndex P xs))"

definition toggleLayerLock :: "'j fabric_lib \<Rightarrow> string \<Rightarrow> AppState \<Rightarrow> AppState" where
  "toggleLayerLock L ident st =
     (case canvas st of
        None \<Rightarrow> st
      | Some c \<Rightarrow>
          (case findIndex (\<lambda>ob. o_id ob = Some ident) (objects c) of
             None \<Rightarrow> st
           | Some i \<Rightarrow>
               (let obj = objects c ! i;
                    obj' = obj\<lparr>o_selectable := \<not> o_selectable obj, o_evented := \<not> o_evented obj\<rparr>;
                    c' = c\<lparr>objects := (objects c)[i := obj']\<rparr>
                in updateLayers L (addToHistory L (st\<lparr>canvas := Some c'\<rparr>)))))"

definition toggleLayerVisibility :: "'j fabric_lib \<Rightarrow> string \<Rightarrow> AppState \<Rightarrow> AppState" where
  "toggleLayerVisibility L ident st =
     (case canvas st of
        None \<Rightarrow> st
      | Some c \<Rightarrow>
          (case findIndex (\<lambda>ob. o_id ob = Some ident) (objects c) of
             None \<Rightarrow> st
           | Some i \<Rightarrow>
               (let obj = objects c ! i;
                    obj' = obj\<lparr>o_visible := \<not> o_visible obj\<rparr>;
                    c' = c\<lparr>objects := (objects c)[i := obj']\<rparr>
                in updateLayers L (addToHistory L (st\<lparr>canvas := Some c'\<rparr>)))))"

section \<open>The designs database\<close>

text \<open>
  The object store \<^verbatim>\<open>designs\<close> has the key path \<^verbatim>\<open>id\<close> and the index
  \<^verbatim>\<open>timestamp\<close>. It is modelled by the list of its records: \<open>db_put\<close> replaces
  the record with the same key or adds one, \<open>db_get\<close> looks a key up, and reading
  through the index yields the records by index key, then by primary key.
\<close>

record design =
  d_canvas :: string
  d_thumbnail :: string
  d_name :: string
  d_style :: string

record stored_design =
  s_id :: string
  s_canvas :: string
  s_thumbnail :: string
  s_name :: string
  s_style :: string
  s_timestamp :: string

fun db_put :: "stored_design \<Rightarrow> stored_design list \<Rightarrow> stored_design list" where
  "db_put v [] = [v]"
| "db_put v (x # xs) = (if s_id x = s_id v then v # xs else x # db_put v xs)"

definition db_get :: "string \<Rightarrow> stored_design list \<Rightarrow> stored_design option" where
  "db_get k db = find (\<lambda>x. s_id x = k) db"

definition db_delete :: "string \<Rightarrow> stored_design list \<Rightarrow> stored_design list" where
  "db_delete k db = filter (\<lambda>x. s_id x \<noteq> k) db"

definition db_getAllFromIndex_timestamp :: "stored_design list \<Rightarrow> stored_design list" where
  "db_getAllFromIndex_timestamp db = sort_key (\<lambda>x. (s_timestamp x, s_id x)) db"

text \<open>
  \<open>saveDesign\<close> reads the clock twice: \<open>now\<close> is \<^verbatim>\<open>Date.now()\<close> and \<open>isoTime\<close> is
  \<^verbatim>\<open>new Date().toISOString()\<close>. It returns the identifier and the store written.
\<close>

definition saveDesign :: "int \<Rightarrow> string \<Rightarrow> design \<Rightarrow> stored_design list \<Rightarrow> string \<times> stored_design list" where
  "saveDesign now isoTime d db =
     (let ident = Number_toString now;
          designData = \<lparr>s_id = ident, s_canvas = d_canvas d, s_thumbnail = d_thumbnail d,
                        s_name = d_name d, s_style = d_style d, s_timestamp = isoTime\<rparr>
      in (ident, db_put designData db))"

definition loadDesign :: "string \<Rightarrow> stored_design list \<Rightarrow> stored_design option" where
  "loadDesign ident db = db_get ident db"

definition getAllDesigns :: "stored_design list \<Rightarrow> stored_design list" where
  "getAllDesigns db = db_getAllFromIndex_timestamp db"

definition deleteDesign :: "string \<Rightarrow> stored_design list \<Rightarrow> stored_design list" where
  "deleteDesign ident db = db_delete ident db"

section \<open>The AI service\<close>

text \<open>
  The client of the hosted model is not part of the repository. \<open>generateImages\<close>
  and \<open>generateContent\<close> are its two calls, as functions of the request; \<open>Inl e\<close>
  is a rejected call. A response carries what the service reads from it.
\<close>

record image =
  imageBytes :: "string option"

record generated_image =
  image :: "image option"

record images_response =
  generatedImages :: "generated_image list option"

record inline_data =
  i_data :: string
  i_mimeType :: string

record part =
  inlineData :: "inline_data option"

record candidate =
  parts :: "part list option"

record content_response =
  candidates :: "candidate list option"
  response_text :: string

datatype contents = Prompt string | ImageAndPrompt inline_data string

record genai =
  generateImages :: "string \<Rightarrow> js_error + images_response"
  generateContent :: "contents \<Rightarrow> js_error + content_response"



definition enhancedPrompt :: "string \<Rightarrow> string \<Rightarrow> string" where
  "enhancedPrompt prompt style =
     ''A high-quality, professional tattoo design in a '' @ style @
     '' style. The subject is: '' @ [CHR 0x22] @ prompt @ [CHR 0x22] @
     ''. The design should have clean, bold lines suitable for a stencil, with appropriate shading for the specified style. The background should be solid white.''"

text \<open>
  The service methods, on the client \<open>ai\<close> of the instance. In
  \<open>generateDesign\<close> the source reads
  \<^verbatim>\<open>response.generatedImages[0].image.imageBytes\<close> without a guard: an entry
  without \<^verbatim>\<open>image\<close> makes the read throw a \<^verbatim>\<open>TypeError\<close>, and an image
  without bytes puts the text \<^verbatim>\<open>undefined\<close> into the result.
\<close>

definition aiService_generateDesign :: "genai \<Rightarrow> string \<Rightarrow> string \<Rightarrow> js_error + string" where
  "aiService_generateDesign ai prompt style =
     (case generateImages ai (enhancedPrompt prompt style) of
        Inl e \<Rightarrow> Inl e
      | Inr response \<Rightarrow>
          (case generatedImages response of
             None \<Rightarrow> Inl (Error ''AI failed to generate a design.'')
           | Some imgs \<Rightarrow>
               if length imgs > 0 then
                 (case image (imgs ! 0) of
                    None \<Rightarrow> Inl TypeError
                  | Some im \<Rightarrow>
                      Inr (''data:image/png;base64,'' @
                           (case imageBytes im of None \<Rightarrow> ''undefined'' | Some bytes \<Rightarrow> bytes)))
               else Inl (Error ''AI failed to generate a design.'')))"




section \<open>The AI tools panel\<close>

text \<open>
  The panel keeps the prompt and the content of its modal dialog, and works on the
  store. An error caught by a handler is shown in the modal with the title
  \<^verbatim>\<open>Error\<close> and the message of the error as its body (\<open>ErrorText e\<close>).
\<close>

datatype 'p modal_body = ErrorText js_error | InputRequired | StencilReady string | PlacementAdvice 'p

record 'p modal =
  title :: string
  body :: "'p modal_body"

record 'p panel =
  store :: AppState
  prompt :: string
  modalContent :: "'p modal option"





definition showError :: "js_error \<Rightarrow> 'p panel \<Rightarrow> 'p panel" where
  "showError e ui = ui\<lparr>modalContent := Some \<lparr>title = ''Error'', body = ErrorText e\<rparr>\<rparr>"







section \<open>Concrete instances\<close>

text \<open>
  A small instance of the library interface, on which the operations can be run: a
  snapshot records the visibility flag of each object, and its objects are one
  rectangle per flag.
\<close>

definition example_object :: "string \<Rightarrow> bool \<Rightarrow> fabric_object" where
  "example_object ident v =
     \<lparr>o_id = Some ident, o_type = ''rect'', o_text = None, o_selectable = True,
      o_evented = True, o_visible = v\<rparr>"

definition example_lib :: "bool list fabric_lib" where
  "example_lib =
     \<lparr>toJSON = (\<lambda>c. map (\<lambda>ob. if o_visible ob then CHR ''1'' else CHR ''0'') (objects c)),
      JSON_parse = (\<lambda>s. if list_all (\<lambda>ch. ch = CHR ''0'' \<or> ch = CHR ''1'') s
                          then Some (map (\<lambda>ch. ch = CHR ''1'') s) else None),
      enlivenObjects = (\<lambda>j. map (example_object ''fabric_1'') j),
      toDataURL = (\<lambda>ob. ''data:image/png;base64,AAAA''),
      canvas_toDataURL = (\<lambda>c. ''data:image/png;base64,BBBB'')\<rparr>"

definition example_state :: "fabric_object list \<Rightarrow> string list \<Rightarrow> int \<Rightarrow> AppState" where
  "example_state objs h i = initial_state\<lparr>canvas := Some \<lparr>objects = objs\<rparr>, history := h, historyIndex := i\<rparr>"

text \<open>A first snapshot of the empty canvas, then one edit.\<close>

definition example_run :: "event list" where
  "example_run =
     [CanvasIs \<lparr>objects = []\<rparr>, AddToHistory,
      CanvasIs \<lparr>objects = [example_object ''fabric_7'' True]\<rparr>, AddToHistory]"

text \<open>Two objects that carry the same id.\<close>

definition duplicate_id_state :: AppState where
  "duplicate_id_state =
     example_state [example_object ''fabric_1'' True,
                    (example_object ''fabric_1'' True)\<lparr>o_type := ''path''\<rparr>] [] (- 1)"

definition example_design :: "string \<Rightarrow> design" where
  "example_design content =
     \<lparr>d_canvas = content, d_thumbnail = ''data:image/png;base64,AAAA'',
      d_name = ''Design 11/2/2026'', d_style = ''Traditional''\<rparr>"

text \<open>
  A client whose image model returns no image and whose content model cannot be
  reached, and a panel with a prompt on a store that has a canvas.
\<close>

definition example_genai :: "string \<Rightarrow> genai" where
  "example_genai apiKey =
     \<lparr>generateImages = (\<lambda>p. Inr \<lparr>generatedImages = Some []\<rparr>),
      generateContent = (\<lambda>c. Inl (Error ''Failed to fetch''))\<rparr>"


text \<open>Reading a decimal numeral back (used to show that printing is injective).\<close>

definition dec_value :: "string \<Rightarrow> nat" where
  "dec_value s = foldl (\<lambda>a c. 10 * a + (of_char c - 48)) 0 s"

section \<open>Properties of the history\<close>

lemma length_js_slice0: "length (js_slice0 xs e) \<le> length xs"
  by (simp add: js_slice0_def Let_def)

lemma addToHistory_length:
  "length (history st) \<le> MAX_HISTORY \<Longrightarrow> length (history (addToHistory L st)) \<le> MAX_HISTORY"
proof (cases "canvas st")
  case None
  then show "length (history st) \<le> MAX_HISTORY \<Longrightarrow> ?thesis"
    by (simp add: addToHistory_def)
next
  case (Some c)
  assume le: "length (history st) \<le> MAX_HISTORY"
  have "length (js_slice0 (history st) (historyIndex st + 1)) \<le> MAX_HISTORY"
    using length_js_slice0 [of "history st" "historyIndex st + 1"] le by linarith
  then show ?thesis
    using Some le by (simp add: addToHistory_def Let_def)
qed

lemma updateLayers_fields:
  "history (updateLayers L st) = history st"
  "historyIndex (updateLayers L st) = historyIndex st"
  "canvas (updateLayers L st) = canvas st"
  by (simp_all add: updateLayers_def split: option.splits)

text \<open>
  What a property \<open>Q\<close> of the history and its index needs in order to survive the
  handlers, a load, and hence \<open>undo\<close> and \<open>redo\<close>: it survives \<open>addToHistory\<close>,
  and it holds for every index inside the history.
\<close>

lemma handleModified_keeps:
  assumes "\<And>s. Q (history s) (historyIndex s) \<Longrightarrow>
             Q (history (addToHistory L s)) (historyIndex (addToHistory L s))"
    and "Q (history st) (historyIndex st)"
  shows "Q (history (handleModified L st)) (historyIndex (handleModified L st))"
  using assms by (simp add: handleModified_def updateLayers_fields)

lemma clear_objects_keeps:
  assumes add: "\<And>s. Q (history s) (historyIndex s) \<Longrightarrow>
             Q (history (addToHistory L s)) (historyIndex (addToHistory L s))"
    and "Q (history st) (historyIndex st)"
  shows "Q (history (clear_objects L c objs st)) (historyIndex (clear_objects L c objs st))"
  using assms(2)
proof (induction objs arbitrary: st)
  case Nil
  then show ?case by simp
next
  case (Cons ob rest)
  have "Q (history (handleModified L (st\<lparr>canvas := Some (c\<lparr>objects := rest\<rparr>)\<rparr>)))
          (historyIndex (handleModified L (st\<lparr>canvas := Some (c\<lparr>objects := rest\<rparr>)\<rparr>)))"
    by (rule handleModified_keeps [where Q = Q, OF add]) (simp_all add: Cons.prems)
  then show ?case by (simp add: Cons.IH)
qed

lemma object_added_keeps:
  assumes add: "\<And>s. Q (history s) (historyIndex s) \<Longrightarrow>
             Q (history (addToHistory L s)) (historyIndex (addToHistory L s))"
    and q: "Q (history st) (historyIndex st)"
  shows "Q (history (object_added L now k st)) (historyIndex (object_added L now k st))"
proof (cases "canvas st")
  case None
  then show ?thesis using q by (simp add: object_added_def)
next
  case (Some c)
  let ?st = "st\<lparr>canvas := Some (c\<lparr>objects := (objects c)[k := assign_id now (objects c ! k)]\<rparr>)\<rparr>"
  have "Q (history (handleModified L ?st)) (historyIndex (handleModified L ?st))"
    by (rule handleModified_keeps [where Q = Q, OF add]) (simp_all add: q)
  then show ?thesis using Some by (simp add: object_added_def)
qed

lemma announce_keeps:
  assumes add: "\<And>s. Q (history s) (historyIndex s) \<Longrightarrow>
             Q (history (addToHistory L s)) (historyIndex (addToHistory L s))"
    and "Q (history st) (historyIndex st)"
  shows "Q (history (foldl (\<lambda>s k. object_added L (clock k) k s) st ks))
           (historyIndex (foldl (\<lambda>s k. object_added L (clock k) k s) st ks))"
  using assms(2)
proof (induction ks arbitrary: st)
  case Nil
  then show ?case by simp
next
  case (Cons k ks)
  have "Q (history (object_added L (clock k) k st)) (historyIndex (object_added L (clock k) k st))"
    by (rule object_added_keeps [where Q = Q, OF add Cons.prems])
  then show ?case by (simp add: Cons.IH)
qed

lemma loadFromJSON_keeps:
  assumes add: "\<And>s. Q (history s) (historyIndex s) \<Longrightarrow>
             Q (history (addToHistory L s)) (historyIndex (addToHistory L s))"
    and q: "Q (history st) (historyIndex st)"
  shows "Q (history (loadFromJSON L clock enlived st)) (historyIndex (loadFromJSON L clock enlived st))"
proof (cases "canvas st")
  case None
  then show ?thesis using q by (simp add: loadFromJSON_def)
next
  case (Some c)
  let ?cleared = "clear_objects L c (objects c) st"
  let ?added = "?cleared\<lparr>canvas := Some (c\<lparr>objects := enlived\<rparr>)\<rparr>"
  have "Q (history ?cleared) (historyIndex ?cleared)"
    by (rule clear_objects_keeps [where Q = Q, OF add q])
  then have b: "Q (history ?added) (historyIndex ?added)" by simp
  have "Q (history (foldl (\<lambda>s k. object_added L (clock k) k s) ?added [0..<length enlived]))
           (historyIndex (foldl (\<lambda>s k. object_added L (clock k) k s) ?added [0..<length enlived]))"
    by (rule announce_keeps [where Q = Q and clock = clock and L = L, OF add b])
  then show ?thesis using Some by (simp add: loadFromJSON_def Let_def)
qed

lemma undo_keeps:
  assumes add: "\<And>s. Q (history s) (historyIndex s) \<Longrightarrow>
             Q (history (addToHistory L s)) (historyIndex (addToHistory L s))"
    and idx: "\<And>h i k. Q h i \<Longrightarrow> 0 \<le> k \<Longrightarrow> k < int (length h) \<Longrightarrow> Q h k"
    and q: "Q (history st) (historyIndex st)"
  shows "Q (history (snd (undo L clock st))) (historyIndex (snd (undo L clock st)))"
proof -
  have load: "Q (history (loadFromJSON L clock e s)) (historyIndex (loadFromJSON L clock e s))"
    if "Q (history s) (historyIndex s)" for e s
    by (rule loadFromJSON_keeps [where Q = Q, OF add that])
  have written: "Q (history ((updateLayers L st)\<lparr>historyIndex := k\<rparr>))
                   (historyIndex ((updateLayers L st)\<lparr>historyIndex := k\<rparr>))"
    if "js_index (history st) k = Some s" for k s
    using that idx [OF q, of k] by (simp add: updateLayers_fields js_index_def split: if_splits)
  show ?thesis
    using q load written
    by (auto simp add: undo_def Let_def split: option.splits)
qed

lemma redo_keeps:
  assumes add: "\<And>s. Q (history s) (historyIndex s) \<Longrightarrow>
             Q (history (addToHistory L s)) (historyIndex (addToHistory L s))"
    and idx: "\<And>h i k. Q h i \<Longrightarrow> 0 \<le> k \<Longrightarrow> k < int (length h) \<Longrightarrow> Q h k"
    and q: "Q (history st) (historyIndex st)"
  shows "Q (history (snd (redo L clock st))) (historyIndex (snd (redo L clock st)))"
proof -
  have load: "Q (history (loadFromJSON L clock e s)) (historyIndex (loadFromJSON L clock e s))"
    if "Q (history s) (historyIndex s)" for e s
    by (rule loadFromJSON_keeps [where Q = Q, OF add that])
  have written: "Q (history ((updateLayers L st)\<lparr>historyIndex := k\<rparr>))
                   (historyIndex ((updateLayers L st)\<lparr>historyIndex := k\<rparr>))"
    if "js_index (history st) k = Some s" for k s
    using that idx [OF q, of k] by (simp add: updateLayers_fields js_index_def split: if_splits)
  show ?thesis
    using q load written
    by (auto simp add: redo_def Let_def split: option.splits)
qed

lemma undo_length:
  "length (history st) \<le> MAX_HISTORY \<Longrightarrow> length (history (snd (undo L clock st))) \<le> MAX_HISTORY"
  by (rule undo_keeps [where Q = "\<lambda>h i. length h \<le> MAX_HISTORY"]) (simp_all add: addToHistory_length)

lemma redo_length:
  "length (history st) \<le> MAX_HISTORY \<Longrightarrow> length (history (snd (redo L clock st))) \<le> MAX_HISTORY"
  by (rule redo_keeps [where Q = "\<lambda>h i. length h \<le> MAX_HISTORY"]) (simp_all add: addToHistory_length)

lemma step_length:
  "length (history st) \<le> MAX_HISTORY \<Longrightarrow> length (history (step L st ev)) \<le> MAX_HISTORY"
  by (cases ev)
     (simp_all add: addToHistory_length undo_length redo_length setCanvas_def clearHistory_def)

lemma run_length:
  "length (history st) \<le> MAX_HISTORY \<Longrightarrow> length (history (run L evs st)) \<le> MAX_HISTORY"
  unfolding run_def
  by (induction evs arbitrary: st) (simp_all add: step_length)

lemma js_slice0_take: "0 \<le> e \<Longrightarrow> js_slice0 xs e = take (nat e) xs"
  by (simp add: js_slice0_def Let_def min_def)

lemma addToHistory_push:
  assumes "canvas st = Some c" and "js_index (history st) (historyIndex st) \<noteq> Some (toJSON L c)"
    and "- 1 \<le> historyIndex st"
  shows "history (addToHistory L st) =
           (if length (take (nat (historyIndex st + 1)) (history st)) < 50
            then take (nat (historyIndex st + 1)) (history st) @ [toJSON L c]
            else tl (take (nat (historyIndex st + 1)) (history st)) @ [toJSON L c])"
proof -
  have s: "js_slice0 (history st) (historyIndex st + 1) = take (nat (historyIndex st + 1)) (history st)"
    using assms(3) by (simp add: js_slice0_take)
  have "tl (xs @ [y]) = tl xs @ [y]" if "50 \<le> length xs" for xs :: "string list" and y
    using that by (cases xs) simp_all
  then show ?thesis
    using assms(1,2) by (auto simp add: addToHistory_def Let_def s MAX_HISTORY_def)
qed

text \<open>
  Claim C1. Whatever sequence of store calls and canvas changes follows the initial
  state (history empty, index \<open>- 1\<close>), the history never holds more than
  \<open>MAX_HISTORY = 50\<close> snapshots: \<open>addToHistory\<close> cuts the redo tail, pushes the
  snapshot and drops the oldest entry when the list would pass the cap (second part,
  for a canvas whose snapshot differs from the current entry), and no other operation
  makes the list longer.
\<close>

theorem history_never_exceeds_cap:
  "length (history (run L evs initial_state)) \<le> 50 \<and>
   (canvas st = Some c \<and> js_index (history st) (historyIndex st) \<noteq> Some (toJSON L c) \<and>
    - 1 \<le> historyIndex st \<longrightarrow>
      history (addToHistory L st) =
        (if length (take (nat (historyIndex st + 1)) (history st)) < 50
         then take (nat (historyIndex st + 1)) (history st) @ [toJSON L c]
         else tl (take (nat (historyIndex st + 1)) (history st)) @ [toJSON L c]))"
  using run_length [where st = initial_state and L = L and evs = evs]
  by (simp add: initial_state_def MAX_HISTORY_def addToHistory_push)

theorem history_never_exceeds_cap_witness:
  "history (addToHistory example_lib
      (example_state [example_object ''fabric_1'' True] [''0'', ''1'', ''0''] 0)) = [''0'', ''1''] \<and>
   length (history (run example_lib
      [CanvasIs \<lparr>objects = []\<rparr>, AddToHistory, CanvasIs \<lparr>objects = [example_object ''fabric_1'' True]\<rparr>,
       AddToHistory, Undo (\<lambda>k. 0), Redo (\<lambda>k. 0)] initial_state)) \<le> 50"
proof -
  let ?S = "example_state [example_object ''fabric_1'' True] [''0'', ''1'', ''0''] 0"
  have h: "canvas ?S = Some \<lparr>objects = [example_object ''fabric_1'' True]\<rparr> \<and>
      js_index (history ?S) (historyIndex ?S) \<noteq>
        Some (toJSON example_lib \<lparr>objects = [example_object ''fabric_1'' True]\<rparr>) \<and>
      - 1 \<le> historyIndex ?S"
    by (simp add: example_state_def example_lib_def example_object_def js_index_def)
  note T = history_never_exceeds_cap
      [where L = example_lib and st = ?S and c = "\<lparr>objects = [example_object ''fabric_1'' True]\<rparr>"
         and evs = "[CanvasIs \<lparr>objects = []\<rparr>, AddToHistory,
                     CanvasIs \<lparr>objects = [example_object ''fabric_1'' True]\<rparr>, AddToHistory, Undo (\<lambda>k. 0), Redo (\<lambda>k. 0)]"]
  have "history (addToHistory example_lib ?S) =
        (if length (take (nat (historyIndex ?S + 1)) (history ?S)) < 50
         then take (nat (historyIndex ?S + 1)) (history ?S) @
                [toJSON example_lib \<lparr>objects = [example_object ''fabric_1'' True]\<rparr>]
         else tl (take (nat (historyIndex ?S + 1)) (history ?S)) @
                [toJSON example_lib \<lparr>objects = [example_object ''fabric_1'' True]\<rparr>])"
    by (rule mp [OF T [THEN conjunct2] h])
  then have "history (addToHistory example_lib ?S) = [''0'', ''1'']"
    by (simp add: example_state_def example_lib_def example_object_def)
  then show ?thesis using T [THEN conjunct1] by simp
qed

lemma addToHistory_pushed:
  assumes "canvas st = Some c" and "js_index (history st) (historyIndex st) \<noteq> Some (toJSON L c)"
  shows "history (addToHistory L st) \<noteq> [] \<and> last (history (addToHistory L st)) = toJSON L c
         \<and> historyIndex (addToHistory L st) = int (length (history (addToHistory L st))) - 1
         \<and> canvas (addToHistory L st) = Some c"
proof -
  define pushed where "pushed = js_slice0 (history st) (historyIndex st + 1) @ [toJSON L c]"
  have l: "last pushed = toJSON L c" and ne: "pushed \<noteq> []"
    by (simp_all add: pushed_def)
  have tl: "length pushed > MAX_HISTORY \<Longrightarrow> tl pushed \<noteq> [] \<and> last (tl pushed) = toJSON L c"
    using l by (cases pushed; cases "tl pushed") (auto simp: MAX_HISTORY_def)
  show ?thesis
    using assms l ne tl
    by (auto simp add: addToHistory_def Let_def pushed_def [symmetric])
qed

lemma js_index_last: "xs \<noteq> [] \<Longrightarrow> js_index xs (int (length xs) - 1) = Some (last xs)"
  by (cases xs rule: rev_cases) (auto simp add: js_index_def nth_append)

lemma addToHistory_unchanged:
  "canvas st = Some c \<Longrightarrow> js_index (history st) (historyIndex st) = Some (toJSON L c)
   \<Longrightarrow> addToHistory L st = st"
  by (simp add: addToHistory_def)

lemma addToHistory_twice: "addToHistory L (addToHistory L st) = addToHistory L st"
proof (cases "canvas st")
  case None
  then show ?thesis by (simp add: addToHistory_def)
next
  case (Some c)
  show ?thesis
  proof (cases "js_index (history st) (historyIndex st) = Some (toJSON L c)")
    case True
    then show ?thesis using Some by (simp add: addToHistory_unchanged)
  next
    case False
    from addToHistory_pushed [OF Some False]
    have "js_index (history (addToHistory L st)) (historyIndex (addToHistory L st)) = Some (toJSON L c)"
      and "canvas (addToHistory L st) = Some c"
      by (simp_all add: js_index_last)
    then show ?thesis by (rule addToHistory_unchanged [rotated])
  qed
qed

lemma addToHistory_funpow: "(addToHistory L ^^ Suc n) st = addToHistory L st"
  by (induction n) (simp_all add: addToHistory_twice)

lemma addToHistory_grows_by_one:
  "length (history (addToHistory L st)) \<le> Suc (length (history st))"
  using length_js_slice0 [of "history st" "historyIndex st + 1"]
  by (auto simp add: addToHistory_def Let_def split: option.splits)

text \<open>
  Claim C10. \<open>addToHistory\<close> is idempotent on an unchanged canvas: when the
  serialized canvas equals \<open>history[historyIndex]\<close> the call changes nothing, a
  second call right after a first one changes nothing, and any number of calls
  without an edit in between pushes at most one snapshot.
\<close>

theorem addToHistory_idempotent:
  "(canvas st = Some c \<and> js_index (history st) (historyIndex st) = Some (toJSON L c)
      \<longrightarrow> addToHistory L st = st) \<and>
   addToHistory L (addToHistory L st) = addToHistory L st \<and>
   (addToHistory L ^^ Suc n) st = addToHistory L st \<and>
   length (history ((addToHistory L ^^ n) st)) \<le> Suc (length (history st))"
proof -
  have "length (history ((addToHistory L ^^ n) st)) \<le> Suc (length (history st))"
  proof (cases n)
    case 0
    then show ?thesis by simp
  next
    case (Suc m)
    then show ?thesis
      using addToHistory_funpow [where L = L and n = m and st = st]
        addToHistory_grows_by_one [where L = L and st = st] by simp
  qed
  then show ?thesis
    using addToHistory_funpow [where L = L and n = n and st = st]
    by (simp add: addToHistory_unchanged addToHistory_twice del: funpow.simps)
qed

theorem addToHistory_idempotent_witness:
  "canvas (example_state [example_object ''fabric_1'' True] [''0'', ''1''] 1)
     = Some \<lparr>objects = [example_object ''fabric_1'' True]\<rparr> \<and>
   js_index (history (example_state [example_object ''fabric_1'' True] [''0'', ''1''] 1))
      (historyIndex (example_state [example_object ''fabric_1'' True] [''0'', ''1''] 1))
     = Some (toJSON example_lib \<lparr>objects = [example_object ''fabric_1'' True]\<rparr>) \<and>
   addToHistory example_lib (example_state [example_object ''fabric_1'' True] [''0'', ''1''] 1)
     = example_state [example_object ''fabric_1'' True] [''0'', ''1''] 1"
  using addToHistory_idempotent
      [where st = "example_state [example_object ''fabric_1'' True] [''0'', ''1''] 1"
         and c = "\<lparr>objects = [example_object ''fabric_1'' True]\<rparr>"
         and L = example_lib and n = 0]
  by (simp add: example_state_def example_lib_def example_object_def js_index_def)

lemma addToHistory_inv: "history_inv (addToHistory L st)" if "history_inv st"
proof (cases "canvas st")
  case None
  then show ?thesis using that by (simp add: addToHistory_def)
next
  case (Some c)
  show ?thesis
  proof (cases "js_index (history st) (historyIndex st) = Some (toJSON L c)")
    case True
    then show ?thesis using Some that by (simp add: addToHistory_unchanged)
  next
    case False
    from addToHistory_pushed [OF Some False] show ?thesis
      by (auto simp add: history_inv_def)
  qed
qed

lemma history_inv_keeps:
  "history_inv st =
     (\<lambda>h i. - 1 \<le> i \<and> i \<le> int (length h) - 1 \<and> ((i = - 1) = (h = [])))
       (history st) (historyIndex st)"
  by (simp add: history_inv_def)

lemma undo_inv: "history_inv (snd (undo L clock st))" if "history_inv st"
  unfolding history_inv_keeps
proof (rule undo_keeps)
  show "- 1 \<le> historyIndex st \<and> historyIndex st \<le> int (length (history st)) - 1 \<and>
      ((historyIndex st = - 1) = (history st = []))"
    using that by (simp add: history_inv_def)
next
  fix s :: AppState
  assume "- 1 \<le> historyIndex s \<and> historyIndex s \<le> int (length (history s)) - 1 \<and>
      ((historyIndex s = - 1) = (history s = []))"
  then have "history_inv s" by (simp add: history_inv_def)
  then have "history_inv (addToHistory L s)" by (rule addToHistory_inv)
  then show "- 1 \<le> historyIndex (addToHistory L s) \<and>
      historyIndex (addToHistory L s) \<le> int (length (history (addToHistory L s))) - 1 \<and>
      ((historyIndex (addToHistory L s) = - 1) = (history (addToHistory L s) = []))"
    by (simp add: history_inv_def)
next
  fix h :: "string list" and i k :: int
  assume "0 \<le> k" and "k < int (length h)"
  then show "- 1 \<le> k \<and> k \<le> int (length h) - 1 \<and> ((k = - 1) = (h = []))"
    by auto
qed

lemma redo_inv: "history_inv (snd (redo L clock st))" if "history_inv st"
  unfolding history_inv_keeps
proof (rule redo_keeps)
  show "- 1 \<le> historyIndex st \<and> historyIndex st \<le> int (length (history st)) - 1 \<and>
      ((historyIndex st = - 1) = (history st = []))"
    using that by (simp add: history_inv_def)
next
  fix s :: AppState
  assume "- 1 \<le> historyIndex s \<and> historyIndex s \<le> int (length (history s)) - 1 \<and>
      ((historyIndex s = - 1) = (history s = []))"
  then have "history_inv s" by (simp add: history_inv_def)
  then have "history_inv (addToHistory L s)" by (rule addToHistory_inv)
  then show "- 1 \<le> historyIndex (addToHistory L s) \<and>
      historyIndex (addToHistory L s) \<le> int (length (history (addToHistory L s))) - 1 \<and>
      ((historyIndex (addToHistory L s) = - 1) = (history (addToHistory L s) = []))"
    by (simp add: history_inv_def)
next
  fix h :: "string list" and i k :: int
  assume "0 \<le> k" and "k < int (length h)"
  then show "- 1 \<le> k \<and> k \<le> int (length h) - 1 \<and> ((k = - 1) = (h = []))"
    by auto
qed

lemma clearHistory_inv: "history_inv (clearHistory st)"
  by (simp add: clearHistory_def history_inv_def)

lemma initial_inv: "history_inv initial_state"
  by (simp add: initial_state_def history_inv_def)

lemma step_inv: "history_inv st \<Longrightarrow> history_inv (step L st ev)"
proof (cases ev)
  case (CanvasIs c)
  assume "history_inv st"
  then show ?thesis using CanvasIs by (simp add: setCanvas_def history_inv_def)
qed (simp_all add: addToHistory_inv undo_inv redo_inv clearHistory_inv)

lemma run_inv: "history_inv st \<Longrightarrow> history_inv (run L evs st)"
  unfolding run_def by (induction evs arbitrary: st) (simp_all add: step_inv)

text \<open>
  Claim C9. The invariant \<open>- 1 \<le> historyIndex \<le> length history - 1\<close>, with
  \<open>historyIndex = - 1\<close> exactly when the history is empty, holds in the initial
  state and is preserved by \<open>addToHistory\<close>, \<open>undo\<close>, \<open>redo\<close> and
  \<open>clearHistory\<close>; hence it holds after every run from the initial state.
\<close>

theorem history_index_invariant:
  "history_inv initial_state \<and>
   (history_inv st \<longrightarrow>
      history_inv (addToHistory L st) \<and> history_inv (snd (undo L clock st)) \<and>
      history_inv (snd (redo L clock st)) \<and> history_inv (clearHistory st)) \<and>
   history_inv (run L evs initial_state)"
  by (simp add: initial_inv addToHistory_inv undo_inv redo_inv clearHistory_inv run_inv)

theorem history_index_invariant_witness:
  "history_inv (example_state [example_object ''fabric_1'' True] [''0'', ''1'', ''0''] 1) \<and>
   history_inv (addToHistory example_lib
      (example_state [example_object ''fabric_1'' True] [''0'', ''1'', ''0''] 1)) \<and>
   history_inv (snd (undo example_lib (\<lambda>k. 1700000000000)
      (example_state [example_object ''fabric_1'' True] [''0'', ''1'', ''0''] 1))) \<and>
   history_inv (snd (redo example_lib (\<lambda>k. 1700000000000)
      (example_state [example_object ''fabric_1'' True] [''0'', ''1'', ''0''] 1))) \<and>
   history_inv (clearHistory (example_state [example_object ''fabric_1'' True] [''0'', ''1'', ''0''] 1))"
proof -
  have h: "history_inv (example_state [example_object ''fabric_1'' True] [''0'', ''1'', ''0''] 1)"
    by (simp add: history_inv_def example_state_def)
  show ?thesis
    using h history_index_invariant
      [where st = "example_state [example_object ''fabric_1'' True] [''0'', ''1'', ''0''] 1"
         and L = example_lib and evs = "[]" and clock = "\<lambda>k. 1700000000000"]
    by simp
qed

subsection \<open>Undo\<close>

lemma single_edit:
  assumes "toJSON L c0 \<noteq> toJSON L c1"
  shows "run L [CanvasIs c0, AddToHistory, CanvasIs c1, AddToHistory] initial_state =
           initial_state\<lparr>canvas := Some c1, history := [toJSON L c0, toJSON L c1], historyIndex := 1\<rparr>"
  using assms
  by (simp add: run_def setCanvas_def addToHistory_def initial_state_def js_index_def
      js_slice0_def MAX_HISTORY_def Let_def)

lemma undo_nothing:
  "canvas st = None \<or> historyIndex st \<le> 0 \<Longrightarrow> undo L clock st = (Fulfilled, st)"
  by (auto simp add: undo_def split: option.splits)

lemma undo_empty_snapshot:
  assumes "canvas st = Some c" and "0 < historyIndex st"
    and "js_index (history st) (historyIndex st - 1) = Some s"
    and "JSON_parse L s = Some j" and "enlivenObjects L j = []"
  shows "undo L clock st = (Pending, clear_objects L c (objects c) st\<lparr>canvas := Some (c\<lparr>objects := []\<rparr>)\<rparr>)"
  using assms by (simp add: undo_def loadFromJSON_def Let_def)

text \<open>
  Claim C2 fails on the code. After a single edit the history holds the snapshot of
  the empty canvas and the snapshot with the new object, and the index is 1. \<open>undo\<close>
  then loads the empty snapshot: the promise it waits for is never resolved, so the
  index is never written, and while the canvas is cleared the \<^verbatim>\<open>object:removed\<close>
  handler records a third snapshot and moves the index to 2. The claim asks for index
  0 and an unchanged history.
\<close>

theorem undo_after_single_edit:
  assumes "toJSON L \<lparr>objects = []\<rparr> \<noteq> toJSON L \<lparr>objects = [ob]\<rparr>"
    and "JSON_parse L (toJSON L \<lparr>objects = []\<rparr>) = Some j"
    and "enlivenObjects L j = []"
  shows "historyIndex (run L [CanvasIs \<lparr>objects = []\<rparr>, AddToHistory,
                               CanvasIs \<lparr>objects = [ob]\<rparr>, AddToHistory] initial_state) = 1 \<and>
         undo L clock (run L [CanvasIs \<lparr>objects = []\<rparr>, AddToHistory,
                              CanvasIs \<lparr>objects = [ob]\<rparr>, AddToHistory] initial_state) =
           (Pending,
            initial_state
              \<lparr>canvas := Some \<lparr>objects = []\<rparr>,
               history := [toJSON L \<lparr>objects = []\<rparr>, toJSON L \<lparr>objects = [ob]\<rparr>,
                           toJSON L \<lparr>objects = []\<rparr>],
               historyIndex := 2\<rparr>)"
proof -
  let ?s0 = "toJSON L \<lparr>objects = []\<rparr>" and ?s1 = "toJSON L \<lparr>objects = [ob]\<rparr>"
  let ?st = "initial_state\<lparr>canvas := Some \<lparr>objects = [ob]\<rparr>, history := [?s0, ?s1], historyIndex := 1\<rparr>"
  have r: "run L [CanvasIs \<lparr>objects = []\<rparr>, AddToHistory,
                  CanvasIs \<lparr>objects = [ob]\<rparr>, AddToHistory] initial_state = ?st"
    by (rule single_edit [OF assms(1)])
  have "undo L clock ?st =
      (Pending, clear_objects L \<lparr>objects = [ob]\<rparr> (objects \<lparr>objects = [ob]\<rparr>) ?st
                  \<lparr>canvas := Some (\<lparr>objects = [ob]\<rparr>\<lparr>objects := []\<rparr>)\<rparr>)"
    by (rule undo_empty_snapshot [where s = ?s0 and j = j])
       (simp_all add: js_index_def assms)
  moreover have "clear_objects L \<lparr>objects = [ob]\<rparr> (objects \<lparr>objects = [ob]\<rparr>) ?st =
      initial_state\<lparr>canvas := Some \<lparr>objects = []\<rparr>, history := [?s0, ?s1, ?s0], historyIndex := 2\<rparr>"
    using assms(1)
    by (simp add: handleModified_def addToHistory_def updateLayers_def deriveLayers_def
        js_index_def js_slice0_def MAX_HISTORY_def Let_def initial_state_def)
  ultimately show ?thesis
    unfolding r by simp
qed

theorem undo_after_single_edit_witness:
  "undo example_lib (\<lambda>k. 1700000000000) (run example_lib example_run initial_state) =
     (Pending, example_state [] ['''', ''1'', ''''] 2) \<and>
   undo example_lib (\<lambda>k. 1700000000000)
      (example_state [example_object ''fabric_7'' True, example_object ''fabric_8'' True]
         ['''', ''1'', ''11''] 2) =
     (Fulfilled,
      example_state [example_object ''fabric_1'' True] ['''', ''1'', '''', ''1''] 3
        \<lparr>layers := [layerOf example_lib (example_object ''fabric_1'' True)]\<rparr>)"
proof -
  have h: "toJSON example_lib \<lparr>objects = []\<rparr> \<noteq>
        toJSON example_lib \<lparr>objects = [example_object ''fabric_7'' True]\<rparr>"
    "JSON_parse example_lib (toJSON example_lib \<lparr>objects = []\<rparr>) = Some []"
    "enlivenObjects example_lib [] = []"
    by (simp_all add: example_lib_def)
  have a: "undo example_lib (\<lambda>k. 1700000000000) (run example_lib example_run initial_state) =
     (Pending, example_state [] ['''', ''1'', ''''] 2)"
    unfolding example_run_def
      undo_after_single_edit
        [where L = example_lib and clock = "\<lambda>k. 1700000000000", OF h, THEN conjunct2]
    by (simp add: example_state_def example_lib_def example_object_def)
  have b: "undo example_lib (\<lambda>k. 1700000000000)
      (example_state [example_object ''fabric_7'' True, example_object ''fabric_8'' True]
         ['''', ''1'', ''11''] 2) =
     (Fulfilled,
      example_state [example_object ''fabric_1'' True] ['''', ''1'', '''', ''1''] 3
        \<lparr>layers := [layerOf example_lib (example_object ''fabric_1'' True)]\<rparr>)"
    by (simp add: undo_def loadFromJSON_def object_added_def handleModified_def addToHistory_def
        updateLayers_def deriveLayers_def assign_id_def truthy_def example_state_def
        example_lib_def example_object_def layerOf_def
        js_index_def js_slice0_def MAX_HISTORY_def Let_def initial_state_def)
  from a b show ?thesis by blast
qed

section \<open>Properties of the layer flags\<close>

lemma findIndex_first:
  "i < length xs \<Longrightarrow> P (xs ! i) \<Longrightarrow> (\<forall>j<i. \<not> P (xs ! j)) \<Longrightarrow> findIndex P xs = Some i"
proof (induction xs arbitrary: i)
  case Nil
  then show ?case by simp
next
  case (Cons x xs)
  show ?case
  proof (cases i)
    case 0
    then show ?thesis using Cons.prems by simp
  next
    case (Suc k)
    have "\<not> P x" using Cons.prems(3) Suc by auto
    moreover have "findIndex P xs = Some k"
    proof (rule Cons.IH)
      show "k < length xs" using Cons.prems(1) Suc by simp
      show "P (xs ! k)" using Cons.prems(2) Suc by simp
      show "\<forall>j<k. \<not> P (xs ! j)"
      proof (intro allI impI)
        fix j assume "j < k"
        then have "Suc j < i" using Suc by simp
        then have "\<not> P ((x # xs) ! Suc j)" using Cons.prems(3) by blast
        then show "\<not> P (xs ! j)" by simp
      qed
    qed
    ultimately show ?thesis using Suc by simp
  qed
qed

lemma deriveLayers_append:
  "deriveLayers L (xs @ ys) = deriveLayers L xs @ deriveLayers L ys"
  by (simp add: deriveLayers_def)

lemma deriveLayers_Cons:
  "truthy (o_id ob) \<Longrightarrow> deriveLayers L (ob # objs) = layerOf L ob # deriveLayers L objs"
  by (simp add: deriveLayers_def layerOf_def)

lemma deriveLayers_split:
  assumes "i < length objs" and "truthy (o_id ob)"
  shows "deriveLayers L (objs[i := ob]) =
           deriveLayers L (take i objs) @ [layerOf L ob] @ deriveLayers L (drop (Suc i) objs)"
proof -
  have "objs[i := ob] = take i objs @ [ob] @ drop (Suc i) objs"
    using assms(1) by (simp add: upd_conv_take_nth_drop)
  then show ?thesis
    by (simp add: deriveLayers_append deriveLayers_Cons [OF assms(2)])
qed

lemma canvas_addToHistory: "canvas (addToHistory L st) = canvas st"
  by (simp add: addToHistory_def Let_def split: option.splits)

lemma toggle_store:
  assumes "canvas st = Some c"
  shows "canvas (updateLayers L (addToHistory L (st\<lparr>canvas := Some c'\<rparr>))) = Some c' \<and>
         layers (updateLayers L (addToHistory L (st\<lparr>canvas := Some c'\<rparr>))) = deriveLayers L (objects c')"
proof -
  have "canvas (addToHistory L (st\<lparr>canvas := Some c'\<rparr>)) = Some c'"
    by (simp add: canvas_addToHistory)
  then show ?thesis by (simp add: updateLayers_def)
qed

lemma toggleLayerVisibility_first:
  assumes "canvas st = Some c" and "i < length (objects c)"
    and "o_id (objects c ! i) = Some x" and "\<forall>j<i. o_id (objects c ! j) \<noteq> Some x"
  shows "toggleLayerVisibility L x st =
           updateLayers L (addToHistory L (st\<lparr>canvas := Some (c\<lparr>objects :=
             (objects c)[i := (objects c ! i)\<lparr>o_visible := \<not> o_visible (objects c ! i)\<rparr>]\<rparr>)\<rparr>))"
proof -
  have "findIndex (\<lambda>ob. o_id ob = Some x) (objects c) = Some i"
    using assms(2-4) by (intro findIndex_first) simp_all
  then show ?thesis using assms(1) by (simp add: toggleLayerVisibility_def Let_def)
qed

lemma toggleLayerLock_first:
  assumes "canvas st = Some c" and "i < length (objects c)"
    and "o_id (objects c ! i) = Some x" and "\<forall>j<i. o_id (objects c ! j) \<noteq> Some x"
  shows "toggleLayerLock L x st =
           updateLayers L (addToHistory L (st\<lparr>canvas := Some (c\<lparr>objects :=
             (objects c)[i := (objects c ! i)\<lparr>o_selectable := \<not> o_selectable (objects c ! i),
                                             o_evented := \<not> o_evented (objects c ! i)\<rparr>]\<rparr>)\<rparr>))"
proof -
  have "findIndex (\<lambda>ob. o_id ob = Some x) (objects c) = Some i"
    using assms(2-4) by (intro findIndex_first) simp_all
  then show ?thesis using assms(1) by (simp add: toggleLayerLock_def Let_def)
qed

text \<open>
  Claim C7, as the code has it. \<open>toggleLayerVisibility\<close> and \<open>toggleLayerLock\<close>
  work on the first object that carries the id. For such an object with a non-empty
  id, the call flips its \<open>visible\<close> flag (its \<open>selectable\<close> and \<open>evented\<close>
  flags), and the layer list derived right afterwards differs from the list derived
  before in that one layer only, whose \<open>visible\<close> (\<open>locked\<close>) value is negated;
  every other layer is unchanged. When the ids on the canvas are pairwise distinct
  this is every object of the layer list.
\<close>

theorem toggle_first_object_with_id:
  fixes L :: "'j fabric_lib"
  assumes "canvas st = Some c" and "i < length (objects c)"
    and "o_id (objects c ! i) = Some x" and "x \<noteq> []"
    and "\<forall>j<i. o_id (objects c ! j) \<noteq> Some x"
  defines "ob \<equiv> objects c ! i"
  defines "before \<equiv> deriveLayers L (take i (objects c))"
  defines "after \<equiv> deriveLayers L (drop (Suc i) (objects c))"
  defines "hidden \<equiv> ob\<lparr>o_visible := \<not> o_visible ob\<rparr>"
  defines "locked \<equiv> ob\<lparr>o_selectable := \<not> o_selectable ob, o_evented := \<not> o_evented ob\<rparr>"
  shows "deriveLayers L (objects c) = before @ [layerOf L ob] @ after \<and>
         canvas (toggleLayerVisibility L x st) = Some (c\<lparr>objects := (objects c)[i := hidden]\<rparr>) \<and>
         layers (toggleLayerVisibility L x st) = before @ [layerOf L hidden] @ after \<and>
         l_visible (layerOf L hidden) = (\<not> l_visible (layerOf L ob)) \<and>
         l_locked (layerOf L hidden) = l_locked (layerOf L ob) \<and>
         l_id (layerOf L hidden) = l_id (layerOf L ob) \<and>
         canvas (toggleLayerLock L x st) = Some (c\<lparr>objects := (objects c)[i := locked]\<rparr>) \<and>
         layers (toggleLayerLock L x st) = before @ [layerOf L locked] @ after \<and>
         l_locked (layerOf L locked) = (\<not> l_locked (layerOf L ob)) \<and>
         l_visible (layerOf L locked) = l_visible (layerOf L ob) \<and>
         l_id (layerOf L locked) = l_id (layerOf L ob)"
proof -
  have t: "truthy (o_id ob)" "truthy (o_id hidden)" "truthy (o_id locked)"
    using assms(3,4) by (simp_all add: ob_def hidden_def locked_def truthy_def)
  have "deriveLayers L ((objects c)[i := ob]) = before @ [layerOf L ob] @ after"
    unfolding before_def after_def by (rule deriveLayers_split [OF assms(2) t(1)])
  then have d: "deriveLayers L (objects c) = before @ [layerOf L ob] @ after"
    by (simp add: ob_def)
  have v: "toggleLayerVisibility L x st =
      updateLayers L (addToHistory L (st\<lparr>canvas := Some (c\<lparr>objects := (objects c)[i := hidden]\<rparr>)\<rparr>))"
    unfolding hidden_def ob_def by (rule toggleLayerVisibility_first [OF assms(1,2,3,5)])
  have k: "toggleLayerLock L x st =
      updateLayers L (addToHistory L (st\<lparr>canvas := Some (c\<lparr>objects := (objects c)[i := locked]\<rparr>)\<rparr>))"
    unfolding locked_def ob_def by (rule toggleLayerLock_first [OF assms(1,2,3,5)])
  have dv: "deriveLayers L ((objects c)[i := hidden]) = before @ [layerOf L hidden] @ after"
    unfolding before_def after_def by (rule deriveLayers_split [OF assms(2) t(2)])
  have dk: "deriveLayers L ((objects c)[i := locked]) = before @ [layerOf L locked] @ after"
    unfolding before_def after_def by (rule deriveLayers_split [OF assms(2) t(3)])
  have flags: "l_visible (layerOf L hidden) = (\<not> l_visible (layerOf L ob))"
    "l_locked (layerOf L hidden) = l_locked (layerOf L ob)"
    "l_id (layerOf L hidden) = l_id (layerOf L ob)"
    "l_locked (layerOf L locked) = (\<not> l_locked (layerOf L ob))"
    "l_visible (layerOf L locked) = l_visible (layerOf L ob)"
    "l_id (layerOf L locked) = l_id (layerOf L ob)"
    by (simp_all add: layerOf_def hidden_def locked_def)
  show ?thesis
    using d flags toggle_store [OF assms(1), where L = L] dv dk
    unfolding v k by simp
qed

text \<open>
  Claim C7 as stated fails for an object that shares its id with an earlier one: the
  second object below is in the layer list, and toggling its id flips the first
  object's flags and leaves its own as they were.
\<close>

theorem toggle_duplicate_id_counterexample:
  "o_id (objects (the (canvas duplicate_id_state)) ! 1) = Some ''fabric_1'' \<and>
   map l_id (deriveLayers example_lib (objects (the (canvas duplicate_id_state))))
     = [Some ''fabric_1'', Some ''fabric_1''] \<and>
   map o_visible (objects (the (canvas duplicate_id_state))) = [True, True] \<and>
   map o_visible (objects (the (canvas (toggleLayerVisibility example_lib ''fabric_1'' duplicate_id_state))))
     = [False, True] \<and>
   map l_visible (layers (toggleLayerVisibility example_lib ''fabric_1'' duplicate_id_state))
     = [False, True] \<and>
   map o_selectable (objects (the (canvas duplicate_id_state))) = [True, True] \<and>
   map o_selectable (objects (the (canvas (toggleLayerLock example_lib ''fabric_1'' duplicate_id_state))))
     = [False, True] \<and>
   map l_locked (layers (toggleLayerLock example_lib ''fabric_1'' duplicate_id_state))
     = [True, False]"
  by (simp add: duplicate_id_state_def example_state_def example_object_def example_lib_def
      toggleLayerVisibility_def toggleLayerLock_def updateLayers_def addToHistory_def
      deriveLayers_def layerOf_def truthy_def js_index_def js_slice0_def MAX_HISTORY_def
      initial_state_def Let_def)

theorem toggle_first_object_with_id_witness:
  "canvas (toggleLayerVisibility example_lib ''fabric_2''
      (example_state [example_object ''fabric_1'' True, example_object ''fabric_2'' True] [] (- 1))) =
     Some \<lparr>objects = [example_object ''fabric_1'' True, example_object ''fabric_2'' False]\<rparr> \<and>
   layers (toggleLayerVisibility example_lib ''fabric_2''
      (example_state [example_object ''fabric_1'' True, example_object ''fabric_2'' True] [] (- 1))) =
     [layerOf example_lib (example_object ''fabric_1'' True),
      layerOf example_lib (example_object ''fabric_2'' False)] \<and>
   l_visible (layerOf example_lib (example_object ''fabric_2'' False)) =
     (\<not> l_visible (layerOf example_lib (example_object ''fabric_2'' True))) \<and>
   layers (toggleLayerLock example_lib ''fabric_2''
      (example_state [example_object ''fabric_1'' True, example_object ''fabric_2'' True] [] (- 1))) =
     [layerOf example_lib (example_object ''fabric_1'' True),
      layerOf example_lib ((example_object ''fabric_2'' True)\<lparr>o_selectable := False, o_evented := False\<rparr>)]"
proof -
  let ?S = "example_state [example_object ''fabric_1'' True, example_object ''fabric_2'' True] [] (- 1)"
  let ?c = "\<lparr>objects = [example_object ''fabric_1'' True, example_object ''fabric_2'' True]\<rparr>"
  have h1: "canvas ?S = Some ?c"
    by (simp add: example_state_def)
  have h2: "1 < length (objects ?c)"
    by simp
  have h3: "o_id (objects ?c ! 1) = Some ''fabric_2''"
    by (simp add: example_object_def)
  have h4: "''fabric_2'' \<noteq> []"
    by simp
  have h5: "\<forall>j<1. o_id (objects ?c ! j) \<noteq> Some ''fabric_2''"
    by (simp add: example_object_def)
  show ?thesis
    using toggle_first_object_with_id [OF h1 h2 h3 h4 h5, where L = example_lib]
    by (simp add: deriveLayers_def layerOf_def example_object_def truthy_def)
qed

section \<open>Properties of the designs database\<close>

lemma db_get_put: "db_get (s_id v) (db_put v db) = Some v"
  by (induction db) (simp_all add: db_get_def)

text \<open>
  Claim C3. Saving a design and then loading it under the identifier that
  \<open>saveDesign\<close> returned yields the stored record, whose canvas field is the
  serialized canvas that was saved (with the identifier and timestamp of the save).
\<close>

theorem saveDesign_loadDesign_roundtrip:
  "loadDesign (fst (saveDesign now isoTime d db)) (snd (saveDesign now isoTime d db)) =
     Some \<lparr>s_id = Number_toString now, s_canvas = d_canvas d, s_thumbnail = d_thumbnail d,
           s_name = d_name d, s_style = d_style d, s_timestamp = isoTime\<rparr> \<and>
   map_option s_canvas
     (loadDesign (fst (saveDesign now isoTime d db)) (snd (saveDesign now isoTime d db))) =
     Some (d_canvas d)"
proof -
  let ?v = "\<lparr>s_id = Number_toString now, s_canvas = d_canvas d, s_thumbnail = d_thumbnail d,
           s_name = d_name d, s_style = d_style d, s_timestamp = isoTime\<rparr>"
  have "db_get (s_id ?v) (db_put ?v db) = Some ?v"
    by (rule db_get_put)
  then show ?thesis
    by (simp add: saveDesign_def loadDesign_def Let_def)
qed

lemma sorted_fst_of_pairs:
  "sorted (map (\<lambda>x. (f x, g x)) xs) \<Longrightarrow> sorted (map f xs)"
  by (induction xs) (auto simp add: less_eq_prod_def)

text \<open>
  Claim C6. \<open>getAllDesigns\<close> returns every stored design, each once, in ascending
  order of the timestamp recorded at save (it reads the store through the
  \<^verbatim>\<open>timestamp\<close> index).
\<close>

theorem getAllDesigns_ordered_by_timestamp:
  "sorted (map s_timestamp (getAllDesigns db)) \<and> mset (getAllDesigns db) = mset db"
proof -
  have "sorted (map (\<lambda>x. (s_timestamp x, s_id x)) (sort_key (\<lambda>x. (s_timestamp x, s_id x)) db))"
    by (rule sorted_sort_key)
  then have "sorted (map s_timestamp (sort_key (\<lambda>x. (s_timestamp x, s_id x)) db))"
    by (rule sorted_fst_of_pairs)
  then show ?thesis
    by (simp add: getAllDesigns_def db_getAllFromIndex_timestamp_def)
qed

subsection \<open>Identifiers\<close>

lemma of_char_digit_char: "d < 10 \<Longrightarrow> of_char (digit_char d) = (48 + d :: nat)"
  by (simp add: digit_char_def)

lemma dec_value_dec_digits: "dec_value (dec_digits n) = n"
proof (induction n rule: dec_digits.induct)
  case (1 n)
  show ?case
  proof (cases "n < 10")
    case True
    then have "dec_digits n = [digit_char n]" by (subst dec_digits.simps) simp
    then show ?thesis using True by (simp add: dec_value_def of_char_digit_char)
  next
    case False
    then have "dec_value (dec_digits (n div 10)) = n div 10" by (rule "1.IH")
    moreover have "dec_digits n = dec_digits (n div 10) @ [digit_char (n mod 10)]"
      using False by (subst dec_digits.simps) simp
    ultimately have "dec_value (dec_digits n) = 10 * (n div 10) + n mod 10"
      by (simp add: dec_value_def of_char_digit_char)
    then show ?thesis by simp
  qed
qed

lemma dec_digits_inj:
  assumes "dec_digits n = dec_digits m"
  shows "n = m"
proof -
  have "n = dec_value (dec_digits n)" by (simp only: dec_value_dec_digits)
  also have "\<dots> = dec_value (dec_digits m)" by (simp only: assms)
  also have "\<dots> = m" by (rule dec_value_dec_digits)
  finally show ?thesis .
qed

lemma digit_char_not_minus: "d < 10 \<Longrightarrow> digit_char d \<noteq> CHR ''-''"
proof
  assume "d < 10" and "digit_char d = CHR ''-''"
  then have "(of_char (digit_char d) :: nat) = of_char CHR ''-''" by simp
  then show False using \<open>d < 10\<close> by (simp add: of_char_digit_char)
qed

lemma minus_not_in_dec_digits: "CHR ''-'' \<notin> set (dec_digits n)"
proof (induction n rule: dec_digits.induct)
  case (1 n)
  show ?case
  proof (cases "n < 10")
    case True
    then have "dec_digits n = [digit_char n]" by (subst dec_digits.simps) simp
    then show ?thesis using True digit_char_not_minus [of n] by simp
  next
    case False
    then have "CHR ''-'' \<notin> set (dec_digits (n div 10))" by (rule "1.IH")
    moreover have "digit_char (n mod 10) \<noteq> CHR ''-''"
      by (rule digit_char_not_minus) simp
    moreover have "dec_digits n = dec_digits (n div 10) @ [digit_char (n mod 10)]"
      using False by (subst dec_digits.simps) simp
    ultimately show ?thesis by simp
  qed
qed

lemma Number_toString_inj: "(Number_toString a = Number_toString b) = (a = b)"
proof
  assume eq: "Number_toString a = Number_toString b"
  consider "a < 0" "b < 0" | "a < 0" "0 \<le> b" | "0 \<le> a" "b < 0" | "0 \<le> a" "0 \<le> b"
    by linarith
  then show "a = b"
  proof cases
    case 1
    then have "dec_digits (nat (- a)) = dec_digits (nat (- b))"
      using eq by (simp add: Number_toString_def)
    then have "nat (- a) = nat (- b)" by (rule dec_digits_inj)
    then show ?thesis using 1 by simp
  next
    case 2
    then have "CHR ''-'' # dec_digits (nat (- a)) = dec_digits (nat b)"
      using eq by (simp add: Number_toString_def)
    then have "CHR ''-'' \<in> set (dec_digits (nat b))"
      by (metis list.set_intros(1))
    then show ?thesis using minus_not_in_dec_digits by blast
  next
    case 3
    then have "dec_digits (nat a) = CHR ''-'' # dec_digits (nat (- b))"
      using eq by (simp add: Number_toString_def)
    then have "CHR ''-'' \<in> set (dec_digits (nat a))"
      by (metis list.set_intros(1))
    then show ?thesis using minus_not_in_dec_digits by blast
  next
    case 4
    then have "dec_digits (nat a) = dec_digits (nat b)"
      using eq by (simp add: Number_toString_def)
    then have "nat a = nat b" by (rule dec_digits_inj)
    then show ?thesis using 4 by simp
  qed
qed simp

lemma digit_char_table:
  "digit_char 0 = CHR ''0''" "digit_char (Suc 0) = CHR ''1''" "digit_char 2 = CHR ''2''"
  "digit_char 3 = CHR ''3''" "digit_char 4 = CHR ''4''" "digit_char 5 = CHR ''5''"
  "digit_char 6 = CHR ''6''" "digit_char 7 = CHR ''7''" "digit_char 8 = CHR ''8''"
  "digit_char 9 = CHR ''9''"
  by code_simp+

lemma Number_toString_example: "Number_toString 1700000000000 = ''1700000000000''"
  by (simp add: Number_toString_def dec_digits.simps digit_char_table)

lemma ids_db_put: "set (map s_id (db_put v db)) = insert (s_id v) (set (map s_id db))"
  by (induction db) auto

lemma distinct_db_put: "distinct (map s_id db) \<Longrightarrow> distinct (map s_id (db_put v db))"
proof (induction db)
  case Nil
  then show ?case by simp
next
  case (Cons x xs)
  then have "s_id x \<notin> set (map s_id (db_put v xs))" if "s_id x \<noteq> s_id v"
    using that by (simp only: ids_db_put) auto
  then show ?case using Cons by auto
qed

text \<open>
  Claim C8, as the code has it. An identifier is the clock reading printed in
  decimal (with the prefix \<^verbatim>\<open>fabric_\<close> for canvas objects): two saves, or two
  objects without an id, get the same identifier exactly when their calls read the
  same clock value; an object that has an id keeps it. The designs in the store keep
  pairwise different identifiers, since a save under an identifier in use replaces
  the stored design.
\<close>

theorem identifiers_follow_the_clock:
  "(fst (saveDesign n t d db) = fst (saveDesign m t' d' db')) = (n = m) \<and>
   (fabric_id n = fabric_id m) = (n = m) \<and>
   (\<not> truthy (o_id a) \<and> \<not> truthy (o_id b) \<longrightarrow>
      (o_id (assign_id n a) = o_id (assign_id m b)) = (n = m)) \<and>
   (truthy (o_id a) \<longrightarrow> o_id (assign_id n a) = o_id a) \<and>
   (distinct (map s_id db) \<longrightarrow> distinct (map s_id (snd (saveDesign n t d db))))"
  by (simp add: saveDesign_def Let_def fabric_id_def assign_id_def Number_toString_inj
      distinct_db_put)

theorem identifiers_follow_the_clock_witness:
  "\<not> truthy (o_id ((example_object [] True)\<lparr>o_id := None\<rparr>)) \<and>
   \<not> truthy (o_id (example_object [] False)) \<and>
   o_id (assign_id 1700000000000 ((example_object [] True)\<lparr>o_id := None\<rparr>)) \<noteq>
     o_id (assign_id 1700000000001 (example_object [] False)) \<and>
   truthy (o_id (example_object ''fabric_1'' True)) \<and>
   o_id (assign_id 1700000000000 (example_object ''fabric_1'' True)) = Some ''fabric_1'' \<and>
   distinct (map s_id [] :: string list) \<and>
   distinct (map s_id (snd (saveDesign 1700000000000 ''2023-11-14T22:13:20.000Z''
      (example_design ''{}'') [])))"
proof -
  have h: "\<not> truthy (o_id ((example_object [] True)\<lparr>o_id := None\<rparr>)) \<and>
      \<not> truthy (o_id (example_object [] False))"
    "truthy (o_id (example_object ''fabric_1'' True))"
    "distinct (map s_id [] :: string list)"
    by (simp_all add: truthy_def example_object_def)
  show ?thesis
    using h
      identifiers_follow_the_clock
        [where a = "(example_object [] True)\<lparr>o_id := None\<rparr>" and b = "example_object [] False"
           and n = 1700000000000 and m = 1700000000001 and db = "[]"
           and t = "''2023-11-14T22:13:20.000Z''" and d = "example_design ''{}''"]
      identifiers_follow_the_clock
        [where a = "example_object ''fabric_1'' True" and n = 1700000000000]
    by (simp add: example_object_def)
qed

text \<open>
  Claim C8 as stated fails when the clock does not advance between two creations:
  two different designs saved at the same reading get the same identifier (and the
  second replaces the first in the store), and two different objects added at the
  same reading get the same id.
\<close>

theorem identifier_collision_counterexample:
  "example_design ''[]'' \<noteq> example_design ''{}'' \<and>
   fst (saveDesign 1700000000000 ''2023-11-14T22:13:20.000Z'' (example_design ''[]'') []) =
   fst (saveDesign 1700000000000 ''2023-11-14T22:13:20.000Z'' (example_design ''{}'')
          (snd (saveDesign 1700000000000 ''2023-11-14T22:13:20.000Z''
                  (example_design ''[]'') []))) \<and>
   map s_canvas
     (snd (saveDesign 1700000000000 ''2023-11-14T22:13:20.000Z'' (example_design ''{}'')
          (snd (saveDesign 1700000000000 ''2023-11-14T22:13:20.000Z''
                  (example_design ''[]'') [])))) = [''{}''] \<and>
   (example_object [] True)\<lparr>o_id := None\<rparr> \<noteq> (example_object [] False)\<lparr>o_id := None\<rparr> \<and>
   o_id (assign_id 1700000000000 ((example_object [] True)\<lparr>o_id := None\<rparr>)) =
     Some ''fabric_1700000000000'' \<and>
   o_id (assign_id 1700000000000 ((example_object [] False)\<lparr>o_id := None\<rparr>)) =
     Some ''fabric_1700000000000''"
  by (simp add: saveDesign_def Let_def example_design_def example_object_def assign_id_def
      truthy_def fabric_id_def Number_toString_example)

section \<open>Properties of the AI service and its panel\<close>

lemma aiService_generateDesign_cases:
  assumes "generateImages ai (enhancedPrompt p s) = Inr response"
  shows "aiService_generateDesign ai p s =
           (case generatedImages response of
              None \<Rightarrow> Inl (Error ''AI failed to generate a design.'')
            | Some [] \<Rightarrow> Inl (Error ''AI failed to generate a design.'')
            | Some (g # rest) \<Rightarrow>
                (case image g of
                   None \<Rightarrow> Inl TypeError
                 | Some im \<Rightarrow>
                     (case imageBytes im of
                        None \<Rightarrow> Inr ''data:image/png;base64,undefined''
                      | Some bytes \<Rightarrow> Inr (''data:image/png;base64,'' @ bytes))))"
  using assms by (simp add: aiService_generateDesign_def split: option.splits list.splits)

text \<open>
  Claim C5 fails on the code. The error \<^verbatim>\<open>AI failed to generate a design.\<close> is
  thrown exactly when the image list is absent or empty, and the data URI of the
  bytes is returned when the first entry has an image with bytes. But a response
  whose list is not empty and whose first entry has no image makes the unguarded read
  throw a \<^verbatim>\<open>TypeError\<close>, which is neither of the two outcomes of the claim, and
  an image without bytes yields \<^verbatim>\<open>data:image/png;base64,undefined\<close>.
\<close>

theorem generateDesign_entry_without_image:
  assumes "generateImages ai (enhancedPrompt p s) = Inr response"
  shows "(\<forall>g rest. generatedImages response = Some (g # rest) \<and> image g = None \<longrightarrow>
            aiService_generateDesign ai p s = Inl TypeError) \<and>
         (\<forall>g rest im. generatedImages response = Some (g # rest) \<and> image g = Some im \<and>
            imageBytes im = None \<longrightarrow>
            aiService_generateDesign ai p s = Inr ''data:image/png;base64,undefined'') \<and>
         (\<forall>g rest im bytes. generatedImages response = Some (g # rest) \<and> image g = Some im \<and>
            imageBytes im = Some bytes \<longrightarrow>
            aiService_generateDesign ai p s = Inr (''data:image/png;base64,'' @ bytes)) \<and>
         ((aiService_generateDesign ai p s = Inl (Error ''AI failed to generate a design.'')) =
            (generatedImages response = None \<or> generatedImages response = Some []))"
  unfolding aiService_generateDesign_cases [OF assms]
  by (auto split: option.splits list.splits)

theorem generateDesign_entry_without_image_witness:
  "aiService_generateDesign
      \<lparr>generateImages = (\<lambda>p. Inr \<lparr>generatedImages = Some [\<lparr>image = None\<rparr>]\<rparr>),
       generateContent = (\<lambda>c. Inl (Error ''Failed to fetch''))\<rparr> ''a koi fish'' ''Japanese'' =
     Inl TypeError \<and>
   aiService_generateDesign
      \<lparr>generateImages = (\<lambda>p. Inr \<lparr>generatedImages = Some [\<lparr>image = Some \<lparr>imageBytes = None\<rparr>\<rparr>]\<rparr>),
       generateContent = (\<lambda>c. Inl (Error ''Failed to fetch''))\<rparr> ''a koi fish'' ''Japanese'' =
     Inr ''data:image/png;base64,undefined'' \<and>
   aiService_generateDesign
      \<lparr>generateImages =
         (\<lambda>p. Inr \<lparr>generatedImages = Some [\<lparr>image = Some \<lparr>imageBytes = Some ''iVBORw0KGgo=''\<rparr>\<rparr>]\<rparr>),
       generateContent = (\<lambda>c. Inl (Error ''Failed to fetch''))\<rparr> ''a koi fish'' ''Japanese'' =
     Inr ''data:image/png;base64,iVBORw0KGgo='' \<and>
   aiService_generateDesign (example_genai ''key'') ''a koi fish'' ''Japanese'' =
     Inl (Error ''AI failed to generate a design.'')"
proof -
  let ?a1 = "\<lparr>generateImages = (\<lambda>p. Inr \<lparr>generatedImages = Some [\<lparr>image = None\<rparr>]\<rparr>),
       generateContent = (\<lambda>c. Inl (Error ''Failed to fetch''))\<rparr>"
  let ?a2 = "\<lparr>generateImages = (\<lambda>p. Inr \<lparr>generatedImages = Some [\<lparr>image = Some \<lparr>imageBytes = None\<rparr>\<rparr>]\<rparr>),
       generateContent = (\<lambda>c. Inl (Error ''Failed to fetch''))\<rparr>"
  let ?a3 = "\<lparr>generateImages =
         (\<lambda>p. Inr \<lparr>generatedImages = Some [\<lparr>image = Some \<lparr>imageBytes = Some ''iVBORw0KGgo=''\<rparr>\<rparr>]\<rparr>),
       generateContent = (\<lambda>c. Inl (Error ''Failed to fetch''))\<rparr>"
  have h1: "generateImages ?a1 (enhancedPrompt ''a koi fish'' ''Japanese'') =
      Inr \<lparr>generatedImages = Some [\<lparr>image = None\<rparr>]\<rparr>"
    by simp
  have h2: "generateImages ?a2 (enhancedPrompt ''a koi fish'' ''Japanese'') =
      Inr \<lparr>generatedImages = Some [\<lparr>image = Some \<lparr>imageBytes = None\<rparr>\<rparr>]\<rparr>"
    by simp
  have h3: "generateImages ?a3 (enhancedPrompt ''a koi fish'' ''Japanese'') =
      Inr \<lparr>generatedImages = Some [\<lparr>image = Some \<lparr>imageBytes = Some ''iVBORw0KGgo=''\<rparr>\<rparr>]\<rparr>"
    by simp
  have h4: "generateImages (example_genai ''key'') (enhancedPrompt ''a koi fish'' ''Japanese'') =
      Inr \<lparr>generatedImages = Some []\<rparr>"
    by (simp add: example_genai_def)
  show ?thesis
    using generateDesign_entry_without_image [OF h1] generateDesign_entry_without_image [OF h2]
      generateDesign_entry_without_image [OF h3] generateDesign_entry_without_image [OF h4]
    by simp
qed

lemma showError_fields:
  "modalContent (showError e ui) = Some \<lparr>title = ''Error'', body = ErrorText e\<rparr>"
  "store (showError e ui) = store ui"
  by (simp_all add: showError_def)









end
